theory Spec2Isabelle
  imports Main
begin

section \<open>C strings and the libc functions the module calls\<close>

text \<open>
  A value of C type \<open>char *\<close> that points to a NUL-terminated string is modelled by the
  \<open>string\<close> of the characters before the terminator. Memory that is read character by
  character (the argument of \<open>urlencode\<close>, the buffers libcurl hands to the callbacks) is
  modelled by the \<open>string\<close> of all its bytes, which may contain NUL; the end of the list
  stands for the terminator that follows the bytes in memory.
\<close>

abbreviation NUL :: char where
  "NUL \<equiv> CHR 0x00"

text \<open>
  \<open>isalnum\<close> of the "C" locale: the ASCII digits and letters. The module passes it a
  plain \<open>char\<close>; for a character from 128 on, negative where \<open>char\<close> is signed, the
  answer of the C library's table is the same: not alphanumeric.
\<close>

definition isalnum :: "char \<Rightarrow> bool" where
  "isalnum c =
     (let n = (of_char c :: nat)
      in (48 \<le> n \<and> n \<le> 57) \<or> (65 \<le> n \<and> n \<le> 90) \<or> (97 \<le> n \<and> n \<le> 122))"

text \<open>
  A \<open>char\<close> passed to a variadic function is promoted to \<open>int\<close>. Whether \<open>char\<close> is signed
  is left to the platform by the C standard (signed on x86 and x86-64, unsigned on ARM and
  PowerPC Linux), so the model takes it as a parameter.
\<close>

definition char_to_int :: "bool \<Rightarrow> char \<Rightarrow> int" where
  "char_to_int char_signed c =
     (let n = (of_char c :: nat)
      in if char_signed \<and> 128 \<le> n then int n - 256 else int n)"

text \<open>The conversion \<open>%x\<close> reads its \<open>int\<close> argument as a 32-bit \<open>unsigned int\<close>.\<close>

definition as_unsigned :: "int \<Rightarrow> nat" where
  "as_unsigned v = nat (v mod 2 ^ 32)"

definition hex_digit :: "nat \<Rightarrow> char" where
  "hex_digit d = ''0123456789abcdef'' ! d"

function printf_x :: "nat \<Rightarrow> string" where
  "printf_x n = (if n < 16 then [hex_digit n] else printf_x (n div 16) @ [hex_digit (n mod 16)])"
  by pat_completeness auto
termination
  by (relation "measure (\<lambda>n. n)") auto

declare printf_x.simps [simp del]

text \<open>\<open>%02x\<close>: at least two digits, padded with zeros on the left.\<close>

definition printf_02x :: "nat \<Rightarrow> string" where
  "printf_02x n = (let s = printf_x n in replicate (2 - length s) (CHR ''0'') @ s)"

text \<open>
  \<open>snprintf(buf, size, ...)\<close> stores at most \<open>size - 1\<close> characters of the formatted text,
  then the terminator.
\<close>

definition snprintf :: "nat \<Rightarrow> string \<Rightarrow> string" where
  "snprintf n formatted = take (n - 1) formatted"

definition strlen :: "string \<Rightarrow> nat" where
  "strlen s = length (takeWhile (\<lambda>c. c \<noteq> NUL) s)"

section \<open>urlencode\<close>

text \<open>
  The first loop of \<open>urlencode\<close> counts the characters that will be escaped, up to the
  terminator; the buffer is then allocated with
  \<open>strlen(str) + 2 * num_to_escape + 1\<close> bytes.
\<close>

fun num_to_escape :: "string \<Rightarrow> nat" where
  "num_to_escape [] = 0"
| "num_to_escape (c # cs) =
     (if c = NUL then 0
      else (if \<not> (isalnum c \<or> c = CHR ''-'' \<or> c = CHR ''_'' \<or> c = CHR ''.'' \<or> c = CHR '' '')
            then 1 else 0) + num_to_escape cs)"

definition escaped_size :: "string \<Rightarrow> nat" where
  "escaped_size str = strlen str + 2 * num_to_escape str + 1"

text \<open>
  The body of the second loop: the characters written through \<open>track\<close> for one input
  character. \<open>in_hex\<close> is the three-byte array filled by \<open>snprintf(in_hex, 3, "%02x", *check)\<close>.
\<close>

definition in_hex :: "bool \<Rightarrow> char \<Rightarrow> string" where
  "in_hex char_signed c = snprintf 3 (printf_02x (as_unsigned (char_to_int char_signed c)))"

definition escape_char :: "bool \<Rightarrow> char \<Rightarrow> string" where
  "escape_char char_signed c =
     (if isalnum c \<or> c = CHR ''-'' \<or> c = CHR ''_'' \<or> c = CHR ''.'' then [c]
      else if c = CHR '' '' then [CHR ''+'']
      else [CHR ''%'', in_hex char_signed c ! 0, in_hex char_signed c ! 1])"

text \<open>The second loop: it stops at the first NUL of the input and returns what was written.\<close>

fun urlencode :: "bool \<Rightarrow> string \<Rightarrow> string" where
  "urlencode char_signed [] = []"
| "urlencode char_signed (c # cs) =
     (if c = NUL then [] else escape_char char_signed c @ urlencode char_signed cs)"

section \<open>The interfaces of ProFTPD, libc and libcurl\<close>

text \<open>
  What cannot be computed from the module's own code is an input of the model: the
  signedness of \<open>char\<close>, what \<open>curl_easy_perform\<close> does for a request, and the local
  account database behind \<open>getpwnam\<close>.
\<close>

datatype fault = NullDereference | OutOfBoundsRead

datatype log_level = PR_LOG_DEBUG | PR_LOG_ERR

type_synonym log_entry = "log_level \<times> string"

definition MOD_AUTH_WEB_VERSION :: string where
  "MOD_AUTH_WEB_VERSION = ''mod_auth_web/1.1.2''"

record passwd =
  pw_name :: string
  pw_passwd :: string
  pw_uid :: nat
  pw_gid :: nat
  pw_gecos :: string
  pw_dir :: string
  pw_shell :: string

datatype auth_code = PR_AUTH_BADPWD

text \<open>
  The values a handler returns: \<open>PR_DECLINED\<close> leaves the decision to the other
  authentication modules, \<open>PR_HANDLED\<close> accepts, \<open>PR_ERROR_INT\<close> rejects, and
  \<open>mod_create_data\<close> carries the account record of the \<open>getpwnam\<close> handler.
\<close>

datatype modret = PR_DECLINED | PR_HANDLED | PR_ERROR_INT auth_code | mod_create_data passwd

text \<open>
  A compiled regular expression is modelled by the strings it matches;
  \<open>pr_regexp_exec\<close> returns 0 on a match and \<open>REG_NOMATCH\<close> otherwise.
\<close>

type_synonym pr_regex_t = "string \<Rightarrow> bool"

definition pr_regexp_exec :: "pr_regex_t \<Rightarrow> string \<Rightarrow> int" where
  "pr_regexp_exec creg str = (if creg str then 0 else 1)"

datatype CURLcode =
    CURLE_OK
  | CURLE_UNSUPPORTED_PROTOCOL
  | CURLE_COULDNT_RESOLVE_HOST
  | CURLE_COULDNT_CONNECT
  | CURLE_OPERATION_TIMEDOUT
  | CURLE_SSL_CONNECT_ERROR
  | CURLE_OTHER nat

text \<open>
  During a transfer libcurl calls the header callback once for each header line and the
  write callback once for each chunk of the body, each time with a buffer of
  \<open>size * nmemb\<close> bytes that is not NUL-terminated.
\<close>

datatype curl_callback = HEADERFUNCTION string | WRITEFUNCTION string

record curl_request =
  CURLOPT_URL :: string
  CURLOPT_HTTPHEADER :: "string list"
  CURLOPT_POSTFIELDS :: string

record curl_transfer =
  callbacks :: "curl_callback list"
  curl_code :: CURLcode
  curl_error :: string

record environment =
  char_signed :: bool
  curl_easy_perform :: "curl_request \<Rightarrow> curl_transfer"
  getpwnam :: "string \<Rightarrow> passwd option"

text \<open>
  \<open>pstrndup(pool, str, n)\<close> copies at most \<open>n\<close> characters and stops at a NUL.
  \<open>pstrcat(pool, ..., NULL)\<close> concatenates its arguments up to the first \<open>NULL\<close>
  pointer, which ends the argument list. Pool allocation does not return \<open>NULL\<close>
  (ProFTPD ends the process when memory runs out), so the branches of the module that
  test for it are never taken.
\<close>

definition pstrndup :: "string \<Rightarrow> nat \<Rightarrow> string" where
  "pstrndup str n = takeWhile (\<lambda>c. c \<noteq> NUL) (take n str)"

fun pstrcat :: "string option list \<Rightarrow> string" where
  "pstrcat [] = []"
| "pstrcat (None # args) = []"
| "pstrcat (Some s # args) = s @ pstrcat args"

text \<open>\<open>strstr(haystack, needle) != NULL\<close>.\<close>

fun starts_with :: "string \<Rightarrow> string \<Rightarrow> bool" where
  "starts_with s [] = True"
| "starts_with [] (n # ns) = False"
| "starts_with (c # cs) (n # ns) = (c = n \<and> starts_with cs ns)"

fun strstr :: "string \<Rightarrow> string \<Rightarrow> bool" where
  "strstr [] needle = (needle = [])"
| "strstr (c # cs) needle = (starts_with (c # cs) needle \<or> strstr cs needle)"

section \<open>The module's state\<close>

text \<open>
  The static variables of the module, and \<open>session.auth_mech\<close>. A \<open>NULL\<close> pointer is
  \<open>None\<close>.
\<close>

record module_state =
  local_user :: "string option"
  url :: "string option"
  user_param_name :: "string option"
  pass_param_name :: "string option"
  failed_string :: "string option"
  required_headers :: "string list option"
  received_headers :: "string list option"
  user_creg :: "pr_regex_t option"
  response_data :: "string option"
  auth_mech :: "string option"

text \<open>
  The directives of the server configuration that \<open>auth_web_getconf\<close> reads when a
  session starts. \<open>required_headers\<close> is allocated only when there is at least one
  \<open>AuthWebRequireHeader\<close>; the two response accumulators stay \<open>NULL\<close>.
\<close>

record server_conf =
  AuthWebURL :: "string option"
  AuthWebUsernameParamName :: "string option"
  AuthWebPasswordParamName :: "string option"
  AuthWebLoginFailedString :: "string option"
  AuthWebLocalUser :: "string option"
  AuthWebUserRegex :: "pr_regex_t option"
  AuthWebRequireHeader :: "string list"

definition auth_web_getconf :: "server_conf \<Rightarrow> module_state" where
  "auth_web_getconf conf =
     \<lparr>local_user = AuthWebLocalUser conf,
      url = AuthWebURL conf,
      user_param_name = AuthWebUsernameParamName conf,
      pass_param_name = AuthWebPasswordParamName conf,
      failed_string = AuthWebLoginFailedString conf,
      required_headers =
        (if AuthWebRequireHeader conf = [] then None else Some (AuthWebRequireHeader conf)),
      received_headers = None,
      user_creg = AuthWebUserRegex conf,
      response_data = None,
      auth_mech = None\<rparr>"

section \<open>The libcurl callbacks\<close>

text \<open>
  One \<open>if (str[copy_len - 1] == '\r' || str[copy_len - 1] == '\n') --copy_len;\<close> of
  \<open>get_response_headers\<close>. \<open>copy_len\<close> is unsigned: when it is 0 the index wraps around
  and the read is outside the buffer.
\<close>

definition trim_newline :: "string \<Rightarrow> nat \<Rightarrow> fault + nat" where
  "trim_newline str copy_len =
     (if copy_len = 0 then Inl OutOfBoundsRead
      else if str ! (copy_len - 1) = CHR 0x0D \<or> str ! (copy_len - 1) = CHR 0x0A
        then Inr (copy_len - 1)
      else Inr copy_len)"

text \<open>
  Both callbacks return \<open>size * nmemb\<close>, which tells libcurl to go on with the transfer,
  so the model returns only the new state (and what was logged).
\<close>

definition get_response_headers ::
  "module_state \<Rightarrow> string \<Rightarrow> fault + (module_state \<times> log_entry list)" where
  "get_response_headers st buffer =
     (case trim_newline buffer (length buffer) of
        Inl f \<Rightarrow> Inl f
      | Inr n \<Rightarrow>
          (case trim_newline buffer n of
             Inl f \<Rightarrow> Inl f
           | Inr copy_len \<Rightarrow>
               (let str = pstrndup buffer copy_len
                in Inr (st\<lparr>received_headers :=
                            Some ((case received_headers st of None \<Rightarrow> [] | Some hs \<Rightarrow> hs) @ [str])\<rparr>,
                        [(PR_LOG_DEBUG,
                          MOD_AUTH_WEB_VERSION @ '': received response header: '' @ str)]))))"

definition get_response_data :: "module_state \<Rightarrow> string \<Rightarrow> module_state" where
  "get_response_data st buffer =
     (let str = pstrndup buffer (length buffer)
      in st\<lparr>response_data := Some (pstrcat [response_data st, Some str, None])\<rparr>)"

text \<open>
  The callbacks of one transfer, in the order libcurl makes them: the fault that stopped
  them, if any, the state they leave and what they logged.
\<close>

fun run_callbacks ::
  "module_state \<Rightarrow> curl_callback list \<Rightarrow> fault option \<times> module_state \<times> log_entry list" where
  "run_callbacks st [] = (None, st, [])"
| "run_callbacks st (HEADERFUNCTION buffer # cbs) =
     (case get_response_headers st buffer of
        Inl f \<Rightarrow> (Some f, st, [])
      | Inr (st', l) \<Rightarrow>
          (case run_callbacks st' cbs of (f, st'', l') \<Rightarrow> (f, st'', l @ l')))"
| "run_callbacks st (WRITEFUNCTION buffer # cbs) =
     run_callbacks (get_response_data st buffer) cbs"

section \<open>The authentication handlers\<close>

text \<open>The test both handlers start with: the module is not configured.\<close>

definition unconfigured :: "module_state \<Rightarrow> bool" where
  "unconfigured st =
     (url st = None \<or> user_param_name st = None \<or> pass_param_name st = None \<or>
      local_user st = None \<or> \<not> (failed_string st \<noteq> None \<or> required_headers st \<noteq> None))"

definition user_regex_fails :: "module_state \<Rightarrow> string \<Rightarrow> bool" where
  "user_regex_fails st username =
     (case user_creg st of
        None \<Rightarrow> False
      | Some creg \<Rightarrow> pr_regexp_exec creg username \<noteq> 0)"

text \<open>
  A handler either returns a value or is stopped by a fault; what it logged before is
  kept in both cases. \<open>memcpy(pw, getpwnam(local_user), sizeof(struct passwd))\<close> reads
  through the pointer that \<open>getpwnam\<close> returns, which is \<open>NULL\<close> when there is no such
  account.
\<close>

definition handle_auth_web_getpwnam ::
  "environment \<Rightarrow> module_state \<Rightarrow> string \<Rightarrow> (fault + modret) \<times> log_entry list" where
  "handle_auth_web_getpwnam env st username =
     (if unconfigured st then (Inr PR_DECLINED, [])
      else if user_regex_fails st username
        then (Inr PR_DECLINED,
              [(PR_LOG_DEBUG, MOD_AUTH_WEB_VERSION @ '': user doesn't match regex'')])
      else
        (case getpwnam env (the (local_user st)) of
           None \<Rightarrow> (Inl NullDereference, [])
         | Some pw \<Rightarrow> (Inr (mod_create_data (pw\<lparr>pw_name := username\<rparr>)), [])))"

text \<open>The inner loop over the received headers: \<open>found\<close>.\<close>

fun header_found :: "string \<Rightarrow> string list \<Rightarrow> bool" where
  "header_found required [] = False"
| "header_found required (received # rest) =
     (if required = received then True else header_found required rest)"

text \<open>
  The outer loop over the required headers: what it logs, and whether it ran to its end
  (\<open>False\<close>: a header was not found and the loop returned).
\<close>

fun check_required_headers :: "string list \<Rightarrow> string list \<Rightarrow> log_entry list \<times> bool" where
  "check_required_headers [] received = ([], True)"
| "check_required_headers (h # hs) received =
     (let checking =
            (PR_LOG_DEBUG,
             MOD_AUTH_WEB_VERSION @ '': checking for header '' @ [CHR 0x27] @ h @ [CHR 0x27] @
             '' in response'')
      in if header_found h received
         then (case check_required_headers hs received of (l, ok) \<Rightarrow> (checking # l, ok))
         else ([checking,
                (PR_LOG_DEBUG,
                 MOD_AUTH_WEB_VERSION @ '': couldn't find header '' @ [CHR 0x27] @ h @
                 [CHR 0x27] @ '' in response'')],
               False))"

text \<open>
  The end of \<open>handle_auth_web_auth\<close>, after a transfer that succeeded: the failed string,
  then the required headers. \<open>received_headers->elts\<close> is read before the loop, whatever
  the number of required headers.
\<close>

definition failed_string_found :: "module_state \<Rightarrow> bool" where
  "failed_string_found st =
     (failed_string st \<noteq> None \<and> response_data st \<noteq> None \<and>
      strstr (the (response_data st)) (the (failed_string st)))"

definition check_response ::
  "module_state \<Rightarrow> (fault + modret) \<times> module_state \<times> log_entry list" where
  "check_response st =
     (if failed_string_found st
      then (Inr (PR_ERROR_INT PR_AUTH_BADPWD), st,
            [(PR_LOG_DEBUG,
              MOD_AUTH_WEB_VERSION @ '': found failed string '' @ [CHR 0x27] @
              the (failed_string st) @ [CHR 0x27] @ '' in response'')])
      else
        (case required_headers st of
           None \<Rightarrow> (Inr PR_HANDLED, st\<lparr>auth_mech := Some ''mod_auth_web.c''\<rparr>, [])
         | Some required \<Rightarrow>
             (case received_headers st of
                None \<Rightarrow> (Inl NullDereference, st, [])
              | Some received \<Rightarrow>
                  (case check_required_headers required received of
                     (l, True) \<Rightarrow> (Inr PR_HANDLED, st\<lparr>auth_mech := Some ''mod_auth_web.c''\<rparr>, l)
                   | (l, False) \<Rightarrow> (Inr (PR_ERROR_INT PR_AUTH_BADPWD), st, l)))))"

text \<open>
  The body of the POST request:
  \<open>snprintf(post_data, post_data_len, "%s=%s&%s=%s", ...)\<close>.
\<close>

definition post_data :: "environment \<Rightarrow> module_state \<Rightarrow> string \<Rightarrow> string \<Rightarrow> string" where
  "post_data env st username password =
     (let escaped_username = urlencode (char_signed env) username;
          escaped_password = urlencode (char_signed env) password;
          post_data_len =
            strlen (the (user_param_name st)) + 1 + strlen escaped_username + 1 +
            strlen (the (pass_param_name st)) + 1 + strlen escaped_password + 1
      in snprintf post_data_len
           (the (user_param_name st) @ ''='' @ escaped_username @ ''&'' @
            the (pass_param_name st) @ ''='' @ escaped_password))"

text \<open>
  The lengths are far below \<open>2 ^ 32\<close> (ProFTPD bounds the length of a command line), so
  the \<open>unsigned int\<close> arithmetic of \<open>post_data_len\<close> does not wrap around.
\<close>

text \<open>The request that is set up on the libcurl handle.\<close>

definition auth_request :: "environment \<Rightarrow> module_state \<Rightarrow> string \<Rightarrow> string \<Rightarrow> curl_request" where
  "auth_request env st username password =
     \<lparr>CURLOPT_URL = the (url st),
      CURLOPT_HTTPHEADER = [''User-Agent: '' @ MOD_AUTH_WEB_VERSION],
      CURLOPT_POSTFIELDS = post_data env st username password\<rparr>"

text \<open>
  What a call of a handler leaves behind: the value returned, the module's state, the
  lines written to the log, and the requests given to \<open>curl_easy_perform\<close>.
\<close>

record auth_outcome =
  ret :: "fault + modret"
  state :: module_state
  logged :: "log_entry list"
  requests :: "curl_request list"

definition handle_auth_web_auth ::
  "environment \<Rightarrow> module_state \<Rightarrow> string \<Rightarrow> string \<Rightarrow> auth_outcome" where
  "handle_auth_web_auth env st username password =
     (if unconfigured st
        then \<lparr>ret = Inr PR_DECLINED, state = st, logged = [], requests = []\<rparr>
      else if user_regex_fails st username
        then \<lparr>ret = Inr PR_DECLINED, state = st,
              logged = [(PR_LOG_DEBUG, MOD_AUTH_WEB_VERSION @ '': user doesn't match regex'')],
              requests = []\<rparr>
      else
        (let request = auth_request env st username password;
             calling =
               (PR_LOG_DEBUG,
                MOD_AUTH_WEB_VERSION @ '': calling URL '' @ the (url st) @
                '' with POST data '' @ post_data env st username password);
             transfer = curl_easy_perform env request
         in case run_callbacks st (callbacks transfer) of
              (Some f, st', received) \<Rightarrow>
                \<lparr>ret = Inl f, state = st', logged = calling # received, requests = [request]\<rparr>
            | (None, st', received) \<Rightarrow>
                if curl_code transfer = CURLE_OK
                then
                  (case check_response st' of
                     (r, st'', checked) \<Rightarrow>
                       \<lparr>ret = r, state = st'',
                        logged =
                          calling # received @
                          (PR_LOG_DEBUG, MOD_AUTH_WEB_VERSION @ '': URL call succeeded'') #
                          checked,
                        requests = [request]\<rparr>)
                else
                  \<lparr>ret = Inr PR_DECLINED, state = st',
                   logged =
                     calling # received @
                     [(PR_LOG_ERR,
                       MOD_AUTH_WEB_VERSION @ '': URL call failed: '' @ curl_error transfer)],
                   requests = [request]\<rparr>))"

section \<open>Example sessions\<close>

text \<open>
  A configuration that detects failure by the text of the response, one that detects it
  by two required headers, a local account database with the single account \<open>ftp\<close>, and
  a well-formed HTTP response as libcurl delivers it: the status line, the header lines
  and the empty line that ends them, each with its CR LF, then the chunks of the body.
  \<open>example_regex\<close> stands for the compiled \<open>^web\<close>; \<open>set_user_regex\<close> compiles with
  \<open>REG_ICASE\<close>, so the letters match in either case. \<open>connection_refused\<close> is a
  transfer that fails before anything is received.
\<close>

definition example_conf :: server_conf where
  "example_conf =
     \<lparr>AuthWebURL = Some ''http://auth.example/check'',
      AuthWebUsernameParamName = Some ''user'',
      AuthWebPasswordParamName = Some ''pass'',
      AuthWebLoginFailedString = Some ''LOGIN FAILED'',
      AuthWebLocalUser = Some ''ftp'',
      AuthWebUserRegex = None,
      AuthWebRequireHeader = []\<rparr>"

definition example_header_conf :: server_conf where
  "example_header_conf =
     example_conf\<lparr>AuthWebLoginFailedString := None,
                  AuthWebRequireHeader := [''X-Auth: ok'', ''X-Role: admin'']\<rparr>"

definition example_passwd :: "string \<Rightarrow> passwd option" where
  "example_passwd name =
     (if name = ''ftp''
      then Some \<lparr>pw_name = ''ftp'', pw_passwd = ''x'', pw_uid = 14, pw_gid = 50,
                 pw_gecos = ''FTP User'', pw_dir = ''/var/ftp'', pw_shell = ''/sbin/nologin''\<rparr>
      else None)"

definition example_env :: "curl_transfer \<Rightarrow> environment" where
  "example_env transfer =
     \<lparr>char_signed = True,
      curl_easy_perform = (\<lambda>request. transfer),
      getpwnam = example_passwd\<rparr>"

definition http_response :: "string list \<Rightarrow> string list \<Rightarrow> curl_transfer" where
  "http_response header_lines chunks =
     \<lparr>callbacks =
        map (\<lambda>line. HEADERFUNCTION (line @ [CHR 0x0D, CHR 0x0A]))
          (''HTTP/1.1 200 OK'' # header_lines @ [[]]) @
        map WRITEFUNCTION chunks,
      curl_code = CURLE_OK,
      curl_error = []\<rparr>"

definition tolower :: "char \<Rightarrow> char" where
  "tolower c =
     (let n = (of_char c :: nat)
      in if 65 \<le> n \<and> n \<le> 90 then char_of (n + 32) else c)"

definition example_regex :: pr_regex_t where
  "example_regex str = starts_with (map tolower str) ''web''"

definition connection_refused :: curl_transfer where
  "connection_refused =
     \<lparr>callbacks = [],
      curl_code = CURLE_COULDNT_CONNECT,
      curl_error = ''Failed to connect to auth.example port 80: Connection refused''\<rparr>"

section \<open>Facts about the libc model\<close>

lemma strlen_no_NUL: "NUL \<notin> set s \<Longrightarrow> strlen s = length s"
  by (induction s) (auto simp: strlen_def)

lemma printf_x_length: "16 \<le> n \<Longrightarrow> 2 \<le> length (printf_x n)"
  by (subst printf_x.simps, subst printf_x.simps) auto

lemma printf_x_take2: "256 \<le> n \<Longrightarrow> take 2 (printf_x n) = take 2 (printf_x (n div 16))"
proof -
  assume "256 \<le> n"
  then have "16 \<le> n div 16" by simp
  then have "2 \<le> length (printf_x (n div 16))" by (rule printf_x_length)
  moreover have "printf_x n = printf_x (n div 16) @ [hex_digit (n mod 16)]"
    using \<open>256 \<le> n\<close> by (subst printf_x.simps) simp
  ultimately show ?thesis by simp
qed

lemma printf_x_take2_iter:
  "16 \<le> n div 16 ^ k \<Longrightarrow> take 2 (printf_x n) = take 2 (printf_x (n div 16 ^ k))"
proof (induction k)
  case 0
  then show ?case by simp
next
  case (Suc k)
  have d: "n div 16 ^ Suc k = (n div 16 ^ k) div 16"
    by (simp only: power_Suc2 div_mult2_eq)
  with Suc.prems have "256 \<le> n div 16 ^ k" by simp
  then have "take 2 (printf_x (n div 16 ^ k)) = take 2 (printf_x (n div 16 ^ Suc k))"
    unfolding d by (rule printf_x_take2)
  moreover from \<open>256 \<le> n div 16 ^ k\<close> have "16 \<le> n div 16 ^ k" by simp
  ultimately show ?case using Suc.IH by simp
qed

lemma printf_x_255: "printf_x 255 = ''ff''"
  by (simp add: printf_x.simps [of 255] printf_x.simps [of 15] hex_digit_def)

lemma printf_02x_small:
  "n < 256 \<Longrightarrow> printf_02x n = [hex_digit (n div 16), hex_digit (n mod 16)]"
proof (cases "n < 16")
  case True
  then show ?thesis
    by (simp add: printf_02x_def printf_x.simps [of n] hex_digit_def)
next
  case False
  assume "n < 256"
  then have "n div 16 < 16" by simp
  with False show ?thesis
    by (simp add: printf_02x_def printf_x.simps [of n] printf_x.simps [of "n div 16"])
qed

lemma printf_02x_length: "2 \<le> length (printf_02x n)"
  by (simp add: printf_02x_def Let_def)

lemma hex_digit_lower: "d < 16 \<Longrightarrow> hex_digit d \<in> set ''0123456789abcdef''"
proof -
  assume "d < 16"
  then have "d < length ''0123456789abcdef''" by simp
  then show ?thesis unfolding hex_digit_def by (rule nth_mem)
qed

lemma hex_digit_inj: "a < 16 \<Longrightarrow> b < 16 \<Longrightarrow> hex_digit a = hex_digit b \<Longrightarrow> a = b"
proof -
  assume "a < 16" "b < 16" "hex_digit a = hex_digit b"
  moreover have "distinct ''0123456789abcdef''" by simp
  ultimately show ?thesis
    unfolding hex_digit_def by (simp add: nth_eq_iff_index_eq)
qed

section \<open>The escape of one character\<close>

lemma in_hex_length: "length (in_hex sg c) = 2"
  using printf_02x_length [of "as_unsigned (char_to_int sg c)"]
  by (simp add: in_hex_def snprintf_def)

text \<open>
  Where \<open>char\<close> is unsigned, and for the characters below 128 everywhere, \<open>in_hex\<close> holds
  the two hexadecimal digits of the character.
\<close>

lemma in_hex_low:
  assumes "\<not> sg \<or> (of_char c :: nat) < 128"
  shows "in_hex sg c = [hex_digit (of_char c div 16), hex_digit (of_char c mod 16)]"
proof -
  have lt: "(of_char c :: nat) < 256" by (rule nat_of_char_less_256)
  have "char_to_int sg c = int (of_char c)"
    using assms by (auto simp: char_to_int_def)
  moreover have "int (of_char c) mod 4294967296 = int (of_char c)"
  proof -
    from lt have "int (of_char c) < 4294967296" by linarith
    then show ?thesis by simp
  qed
  ultimately have "as_unsigned (char_to_int sg c) = of_char c"
    by (simp add: as_unsigned_def)
  then show ?thesis
    using lt by (simp add: in_hex_def snprintf_def printf_02x_small)
qed

text \<open>
  Where \<open>char\<close> is signed, a character from 128 on is promoted to a negative \<open>int\<close>,
  \<open>%02x\<close> prints the eight digits of its two's complement, and the two that fit in
  \<open>in_hex\<close> are \<open>ff\<close>.
\<close>

lemma in_hex_high:
  assumes "sg" and "128 \<le> (of_char c :: nat)"
  shows "in_hex sg c = ''ff''"
proof -
  define n where "n = (of_char c :: nat)"
  have lt: "n < 256" unfolding n_def by (rule nat_of_char_less_256)
  have ge: "128 \<le> n" using assms by (simp add: n_def)
  have "char_to_int sg c = int n - 256"
    using assms by (simp add: char_to_int_def n_def)
  moreover have "(int n - 256) mod 4294967296 = (int n - 256 + 4294967296) mod 4294967296"
    by (simp only: mod_add_self2)
  moreover have "(int n - 256 + 4294967296) mod 4294967296 = int n + 4294967040"
  proof -
    from lt ge have "0 \<le> int n - 256 + 4294967296" "int n - 256 + 4294967296 < 4294967296"
      by linarith+
    then have "(int n - 256 + 4294967296) mod 4294967296 = int n - 256 + 4294967296"
      by (rule mod_pos_pos_trivial)
    then show ?thesis by simp
  qed
  ultimately have v: "as_unsigned (char_to_int sg c) = 4294967040 + n"
    by (simp add: as_unsigned_def nat_eq_iff)
  have six: "(4294967040 + n) div 16 ^ 6 = 255"
    using lt by simp
  then have "take 2 (printf_x (4294967040 + n)) = take 2 (printf_x 255)"
    using printf_x_take2_iter [of "4294967040 + n" 6] by simp
  moreover have "printf_02x (4294967040 + n) = printf_x (4294967040 + n)"
    using printf_x_length [of "4294967040 + n"] by (simp add: printf_02x_def)
  ultimately show ?thesis
    by (simp add: in_hex_def v snprintf_def printf_x_255)
qed

lemma in_hex_digits:
  "in_hex sg c ! 0 \<in> set ''0123456789abcdef'' \<and> in_hex sg c ! 1 \<in> set ''0123456789abcdef''"
proof (cases "sg \<and> 128 \<le> (of_char c :: nat)")
  case True
  then have "in_hex sg c = ''ff''" by (simp add: in_hex_high)
  then show ?thesis by simp
next
  case False
  then have "in_hex sg c = [hex_digit (of_char c div 16), hex_digit (of_char c mod 16)]"
    by (intro in_hex_low) auto
  moreover have "n < 256 \<Longrightarrow> n div 16 < 16" for n :: nat
    by simp
  then have "(of_char c :: nat) div 16 < 16"
    using nat_of_char_less_256 [of c] by blast
  ultimately show ?thesis
    using hex_digit_lower [of "of_char c div 16"] hex_digit_lower [of "of_char c mod 16"]
    by simp
qed

lemma escape_char_no_NUL: "NUL \<notin> set (escape_char sg c)" if "c \<noteq> NUL"
proof -
  have "NUL \<notin> set ''0123456789abcdef''" by simp
  with in_hex_digits [of sg c] have "in_hex sg c ! 0 \<noteq> NUL" "in_hex sg c ! 1 \<noteq> NUL"
    by metis+
  with that show ?thesis by (simp add: escape_char_def)
qed

section \<open>urlencode\<close>

lemma urlencode_single: "c \<noteq> NUL \<Longrightarrow> urlencode sg [c] = escape_char sg c"
  by simp

lemma urlencode_concat:
  "NUL \<notin> set str \<Longrightarrow> urlencode sg str = concat (map (escape_char sg) str)"
  by (induction str) auto

lemma urlencode_takeWhile: "urlencode sg str = urlencode sg (takeWhile (\<lambda>c. c \<noteq> NUL) str)"
  by (induction str) auto

lemma urlencode_no_NUL: "NUL \<notin> set (urlencode sg str)"
  by (induction str) (auto simp: escape_char_no_NUL)

text \<open>
  The buffer that \<open>urlencode\<close> allocates holds exactly what the second loop writes and
  the terminator.
\<close>

lemma urlencode_fits: "length (urlencode sg str) + 1 = escaped_size str"
proof -
  have "length (urlencode sg str) = strlen str + 2 * num_to_escape str"
    by (induction str) (auto simp: strlen_def escape_char_def)
  then show ?thesis by (simp add: escaped_size_def)
qed

text \<open>
  The escape of a character holds the character's value wherever \<open>char\<close> is unsigned,
  and for the characters below 128 everywhere; there it is different for different
  characters.
\<close>

lemma urlencode_escape_value:
  assumes "c \<noteq> NUL"
    and "\<not> (isalnum c \<or> c = CHR ''-'' \<or> c = CHR ''_'' \<or> c = CHR ''.'' \<or> c = CHR '' '')"
    and "\<not> sg \<or> (of_char c :: nat) < 128"
  shows "urlencode sg [c] =
    [CHR ''%'', hex_digit (of_char c div 16), hex_digit (of_char c mod 16)]"
  using assms by (simp add: escape_char_def in_hex_low)

lemma urlencode_escape_inj:
  assumes "c \<noteq> NUL" and "d \<noteq> NUL"
    and "\<not> (isalnum c \<or> c = CHR ''-'' \<or> c = CHR ''_'' \<or> c = CHR ''.'' \<or> c = CHR '' '')"
    and "\<not> (isalnum d \<or> d = CHR ''-'' \<or> d = CHR ''_'' \<or> d = CHR ''.'' \<or> d = CHR '' '')"
    and "\<not> sg \<or> ((of_char c :: nat) < 128 \<and> (of_char d :: nat) < 128)"
    and "urlencode sg [c] = urlencode sg [d]"
  shows "c = d"
proof -
  define m where "m = (of_char c :: nat)"
  define n where "n = (of_char d :: nat)"
  have bounds: "m div 16 < 16" "n div 16 < 16" "m mod 16 < 16" "n mod 16 < 16"
    using nat_of_char_less_256 [of c] nat_of_char_less_256 [of d]
    by (simp_all add: m_def n_def less_mult_imp_div_less)
  have "urlencode sg [c] = [CHR ''%'', hex_digit (m div 16), hex_digit (m mod 16)]"
    unfolding m_def using assms by (intro urlencode_escape_value) auto
  moreover have "urlencode sg [d] = [CHR ''%'', hex_digit (n div 16), hex_digit (n mod 16)]"
    unfolding n_def using assms by (intro urlencode_escape_value) auto
  ultimately have hi: "hex_digit (m div 16) = hex_digit (n div 16)"
    and lo: "hex_digit (m mod 16) = hex_digit (n mod 16)"
    using assms(6) by simp_all
  have "m div 16 = n div 16"
    using bounds(1,2) hi by (rule hex_digit_inj)
  moreover have "m mod 16 = n mod 16"
    using bounds(3,4) lo by (rule hex_digit_inj)
  ultimately have "m = n"
    by (metis div_mult_mod_eq)
  then show ?thesis
    by (simp add: m_def n_def)
qed

text \<open>
  What \<open>urlencode\<close> does to a string without NUL, character by character: an
  alphanumeric character and each of \<open>-\<close>, \<open>_\<close>, \<open>.\<close> is kept, a space becomes \<open>+\<close>, and
  any other character becomes \<open>%\<close> and two lower-case hexadecimal digits. The digits are
  those of the character's value for the characters below 128 and wherever \<open>char\<close> is
  unsigned; they are \<open>ff\<close> for every character from 128 on where \<open>char\<close> is signed.
\<close>

lemma urlencode_characterisation:
  assumes "NUL \<notin> set str"
  shows "urlencode sg str = concat (map (\<lambda>c. urlencode sg [c]) str) \<and>
    (\<forall>c. c \<noteq> NUL \<longrightarrow>
       (isalnum c \<or> c = CHR ''-'' \<or> c = CHR ''_'' \<or> c = CHR ''.'' \<longrightarrow> urlencode sg [c] = [c]) \<and>
       (c = CHR '' '' \<longrightarrow> urlencode sg [c] = ''+'') \<and>
       (\<not> (isalnum c \<or> c = CHR ''-'' \<or> c = CHR ''_'' \<or> c = CHR ''.'' \<or> c = CHR '' '') \<and>
        (\<not> sg \<or> (of_char c :: nat) < 128) \<longrightarrow>
          urlencode sg [c] =
            [CHR ''%'', hex_digit (of_char c div 16), hex_digit (of_char c mod 16)]) \<and>
       (\<not> (isalnum c \<or> c = CHR ''-'' \<or> c = CHR ''_'' \<or> c = CHR ''.'' \<or> c = CHR '' '') \<and>
        sg \<and> 128 \<le> (of_char c :: nat) \<longrightarrow>
          urlencode sg [c] = ''%ff'')) \<and>
    urlencode sg [] = []"
proof -
  have "concat (map (\<lambda>c. urlencode sg [c]) str) = concat (map (escape_char sg) str)"
    using assms by (induction str) auto
  then have whole: "urlencode sg str = concat (map (\<lambda>c. urlencode sg [c]) str)"
    using assms by (simp add: urlencode_concat)
  have space: "\<not> isalnum (CHR '' '')"
    by (simp add: isalnum_def)
  have each: "(isalnum c \<or> c = CHR ''-'' \<or> c = CHR ''_'' \<or> c = CHR ''.'' \<longrightarrow> urlencode sg [c] = [c]) \<and>
       (c = CHR '' '' \<longrightarrow> urlencode sg [c] = ''+'') \<and>
       (\<not> (isalnum c \<or> c = CHR ''-'' \<or> c = CHR ''_'' \<or> c = CHR ''.'' \<or> c = CHR '' '') \<and>
        (\<not> sg \<or> (of_char c :: nat) < 128) \<longrightarrow>
          urlencode sg [c] =
            [CHR ''%'', hex_digit (of_char c div 16), hex_digit (of_char c mod 16)]) \<and>
       (\<not> (isalnum c \<or> c = CHR ''-'' \<or> c = CHR ''_'' \<or> c = CHR ''.'' \<or> c = CHR '' '') \<and>
        sg \<and> 128 \<le> (of_char c :: nat) \<longrightarrow>
          urlencode sg [c] = ''%ff'')" if "c \<noteq> NUL" for c
  proof (intro conjI impI)
    assume "isalnum c \<or> c = CHR ''-'' \<or> c = CHR ''_'' \<or> c = CHR ''.''"
    with that show "urlencode sg [c] = [c]" by (auto simp: escape_char_def)
  next
    assume "c = CHR '' ''"
    with space show "urlencode sg [c] = ''+''" by (simp add: escape_char_def)
  next
    assume "\<not> (isalnum c \<or> c = CHR ''-'' \<or> c = CHR ''_'' \<or> c = CHR ''.'' \<or> c = CHR '' '') \<and>
      (\<not> sg \<or> (of_char c :: nat) < 128)"
    with that show "urlencode sg [c] =
        [CHR ''%'', hex_digit (of_char c div 16), hex_digit (of_char c mod 16)]"
      by (intro urlencode_escape_value) auto
  next
    assume a: "\<not> (isalnum c \<or> c = CHR ''-'' \<or> c = CHR ''_'' \<or> c = CHR ''.'' \<or> c = CHR '' '') \<and>
      sg \<and> 128 \<le> (of_char c :: nat)"
    then have "in_hex sg c = ''ff''" by (simp add: in_hex_high)
    with that a show "urlencode sg [c] = ''%ff''"
      by (simp add: escape_char_def)
  qed
  from whole each show ?thesis by simp
qed

lemma urlencode_example: "urlencode True ''Ab 1-_./'' = ''Ab+1-_.%2f''"
  by code_simp

section \<open>Claims about the encoder\<close>

text \<open>
  C8. A character outside the classes that are kept or turned into \<open>+\<close> is to become
  the \<open>%xx\<close> escape of its value. Where \<open>char\<close> is signed, e-acute (\<open>0xE9\<close> in Latin-1)
  becomes \<open>%ff\<close>; where it is unsigned the same input gives \<open>%e9\<close>.
\<close>

theorem urlencode_signed_char_escape_not_byte_value:
  "urlencode True (''caf'' @ [CHR 0xE9]) = ''caf%ff'' \<and>
   urlencode False (''caf'' @ [CHR 0xE9]) = ''caf%e9''"
  by (simp add: escape_char_def isalnum_def in_hex_high in_hex_low hex_digit_def)

text \<open>
  C9. Where \<open>char\<close> is signed, as on x86 and x86-64, the escapes of the characters from
  128 on are not unique: each of them is \<open>%ff\<close>. Here for the Latin-1 letters e-grave
  and e-acute.
\<close>

theorem urlencode_signed_char_escapes_collide:
  "urlencode True [CHR 0xE8] = ''%ff'' \<and> urlencode True [CHR 0xE9] = ''%ff''"
  by (simp add: escape_char_def isalnum_def in_hex_high)

text \<open>
  C10. An input with a NUL character is not encoded in full: \<open>urlencode\<close> reads a
  NUL-terminated string.
\<close>

theorem urlencode_NUL_counterexample:
  "urlencode False [CHR ''a'', NUL, CHR ''b''] = ''a''"
  by (simp add: escape_char_def isalnum_def)

text \<open>
  C10, as amended. \<open>urlencode\<close> treats its input as a NUL-terminated string: the output
  encodes the characters before the first NUL (all of them when there is none), and
  what follows the first NUL is ignored.
\<close>

theorem urlencode_NUL_terminated:
  "urlencode sg str = concat (map (escape_char sg) (takeWhile (\<lambda>c. c \<noteq> NUL) str)) \<and>
   urlencode sg (str @ NUL # rest) = urlencode sg str"
proof
  have "NUL \<notin> set (takeWhile (\<lambda>c. c \<noteq> NUL) str)"
    by (auto dest: set_takeWhileD)
  then have "urlencode sg (takeWhile (\<lambda>c. c \<noteq> NUL) str) =
      concat (map (escape_char sg) (takeWhile (\<lambda>c. c \<noteq> NUL) str))"
    by (rule urlencode_concat)
  then show "urlencode sg str = concat (map (escape_char sg) (takeWhile (\<lambda>c. c \<noteq> NUL) str))"
    using urlencode_takeWhile [of sg str] by simp
  show "urlencode sg (str @ NUL # rest) = urlencode sg str"
    by (induction str) auto
qed

theorem urlencode_NUL_terminated_witness:
  "urlencode True (''pass'' @ NUL # ''word'') = urlencode True ''pass'' \<and>
   urlencode True ''pass'' = ''pass''"
proof -
  have "urlencode True ''pass'' = ''pass''" by code_simp
  then show ?thesis using urlencode_NUL_terminated [of True "''pass''" "''word''"] by simp
qed

section \<open>Facts about the handlers\<close>

lemma starts_with_iff: "starts_with s n \<longleftrightarrow> (\<exists>v. s = n @ v)"
  by (induction s n rule: starts_with.induct) auto

text \<open>\<open>strstr\<close> finds the needle exactly when it is a contiguous part of the haystack.\<close>

lemma strstr_iff: "strstr haystack needle \<longleftrightarrow> (\<exists>u v. haystack = u @ needle @ v)"
proof (induction haystack)
  case Nil
  then show ?case by auto
next
  case (Cons c cs)
  show ?case
  proof
    assume "strstr (c # cs) needle"
    then consider "starts_with (c # cs) needle" | "strstr cs needle" by auto
    then show "\<exists>u v. c # cs = u @ needle @ v"
    proof cases
      case 1
      then obtain v where "c # cs = needle @ v" by (auto simp: starts_with_iff)
      then have "c # cs = [] @ needle @ v" by simp
      then show ?thesis by blast
    next
      case 2
      with Cons.IH obtain u v where "cs = u @ needle @ v" by blast
      then have "c # cs = (c # u) @ needle @ v" by simp
      then show ?thesis by blast
    qed
  next
    assume "\<exists>u v. c # cs = u @ needle @ v"
    then obtain u v where eq: "c # cs = u @ needle @ v" by blast
    show "strstr (c # cs) needle"
    proof (cases u)
      case Nil
      with eq have "starts_with (c # cs) needle" by (auto simp: starts_with_iff)
      then show ?thesis by simp
    next
      case (Cons a u')
      with eq have "cs = u' @ needle @ v" by simp
      with Cons.IH have "strstr cs needle" by blast
      then show ?thesis by simp
    qed
  qed
qed

lemma header_found_iff: "header_found h received \<longleftrightarrow> h \<in> set received"
  by (induction received) auto

lemma check_required_headers_ok:
  "snd (check_required_headers required received) \<longleftrightarrow> (\<forall>h \<in> set required. h \<in> set received)"
  by (induction required) (auto simp: header_found_iff Let_def split: prod.splits)

text \<open>The callbacks change the two accumulators and nothing else.\<close>

lemma get_response_headers_frame:
  "get_response_headers st buffer = Inr (st', l) \<Longrightarrow>
    \<exists>hs. st' = st\<lparr>received_headers := Some hs\<rparr>"
  by (auto simp: get_response_headers_def Let_def split: sum.splits)

lemma run_callbacks_frame:
  "run_callbacks st cbs = (f, st', l) \<Longrightarrow>
    \<exists>hs d. st' = st\<lparr>received_headers := hs, response_data := d\<rparr>"
proof (induction st cbs arbitrary: f st' l rule: run_callbacks.induct)
  case (1 st)
  then have "st' = st\<lparr>received_headers := received_headers st, response_data := response_data st\<rparr>"
    by simp
  then show ?case by blast
next
  case (2 st buffer cbs)
  show ?case
  proof (cases "get_response_headers st buffer")
    case (Inl e)
    with "2.prems" have "st' = st\<lparr>received_headers := received_headers st, response_data := response_data st\<rparr>"
      by simp
    then show ?thesis by blast
  next
    case (Inr p)
    obtain st1 l1 where p: "p = (st1, l1)" by (cases p)
    obtain f2 st2 l2 where r: "run_callbacks st1 cbs = (f2, st2, l2)"
      by (cases "run_callbacks st1 cbs")
    from Inr p r "2.prems" have "st' = st2" by simp
    moreover from "2.IH" [OF Inr p [symmetric] r] Inr p
    obtain hs d where "st2 = st1\<lparr>received_headers := hs, response_data := d\<rparr>" by blast
    moreover from get_response_headers_frame Inr p
    obtain hs1 where "st1 = st\<lparr>received_headers := Some hs1\<rparr>" by blast
    ultimately have "st' = st\<lparr>received_headers := hs, response_data := d\<rparr>" by simp
    then show ?thesis by blast
  qed
next
  case (3 st buffer cbs)
  then obtain hs d where
    "st' = (get_response_data st buffer)\<lparr>received_headers := hs, response_data := d\<rparr>"
    by force
  then have "st' = st\<lparr>received_headers := hs, response_data := d\<rparr>"
    by (simp add: get_response_data_def)
  then show ?case by blast
qed

lemma post_data_eq:
  assumes "user_param_name st = Some user_param" and "pass_param_name st = Some pass_param"
    and "NUL \<notin> set user_param" and "NUL \<notin> set pass_param"
  shows "post_data env st username password =
    user_param @ ''='' @ urlencode (char_signed env) username @ ''&'' @
    pass_param @ ''='' @ urlencode (char_signed env) password"
  using assms
  by (simp add: post_data_def snprintf_def strlen_no_NUL urlencode_no_NUL)

text \<open>
  Once the failed string is part of \<open>response_data\<close>, the handler rejects before it looks
  at the headers.
\<close>

lemma check_response_failed_string:
  "failed_string_found st \<Longrightarrow> fst (check_response st) = Inr (PR_ERROR_INT PR_AUTH_BADPWD)"
  by (simp add: check_response_def)

lemma check_response_required_headers:
  assumes "\<not> failed_string_found st" and "required_headers st = Some required"
    and "received_headers st = Some received"
  shows "fst (check_response st) =
    (if \<forall>h \<in> set required. h \<in> set received then Inr PR_HANDLED
     else Inr (PR_ERROR_INT PR_AUTH_BADPWD))"
  using assms check_required_headers_ok [of required received]
  by (auto simp: check_response_def split: prod.splits bool.splits)

text \<open>The handler after the two gates, when no callback is stopped by a fault.\<close>

lemma handle_auth_web_auth_transfer:
  assumes "\<not> unconfigured st" and "\<not> user_regex_fails st username"
    and "curl_easy_perform env (auth_request env st username password) = transfer"
    and "run_callbacks st (callbacks transfer) = (None, st', l)"
  shows "ret (handle_auth_web_auth env st username password) =
    (if curl_code transfer = CURLE_OK then fst (check_response st') else Inr PR_DECLINED)"
  using assms
  by (simp add: handle_auth_web_auth_def Let_def split: prod.splits)

section \<open>What the callbacks accumulate\<close>

text \<open>
  A header line that ends with CR LF is stored without them (cut at a NUL, should it
  hold one).
\<close>

lemma get_response_headers_line:
  assumes "NUL \<notin> set line"
  shows "get_response_headers st (line @ [CHR 0x0D, CHR 0x0A]) =
    Inr (st\<lparr>received_headers :=
               Some ((case received_headers st of None \<Rightarrow> [] | Some hs \<Rightarrow> hs) @ [line])\<rparr>,
         [(PR_LOG_DEBUG, MOD_AUTH_WEB_VERSION @ '': received response header: '' @ line)])"
proof -
  have "trim_newline (line @ [CHR 0x0D, CHR 0x0A]) (length (line @ [CHR 0x0D, CHR 0x0A])) =
      Inr (Suc (length line))"
    by (simp add: trim_newline_def nth_append)
  moreover have "trim_newline (line @ [CHR 0x0D, CHR 0x0A]) (Suc (length line)) = Inr (length line)"
    by (simp add: trim_newline_def nth_append)
  moreover have "pstrndup (line @ [CHR 0x0D, CHR 0x0A]) (length line) = line"
    using assms by (auto simp: pstrndup_def takeWhile_eq_all_conv)
  ultimately show ?thesis
    by (simp add: get_response_headers_def)
qed

text \<open>The write callback never faults and leaves the headers alone.\<close>

lemma run_callbacks_chunks:
  "fst (run_callbacks st (map WRITEFUNCTION chunks)) = None \<and>
   received_headers (fst (snd (run_callbacks st (map WRITEFUNCTION chunks)))) =
     received_headers st"
  by (induction chunks arbitrary: st) (simp_all add: get_response_data_def)

text \<open>
  In the first transfer of a session the first chunk of the body is lost: with
  \<open>response_data\<close> still \<open>NULL\<close>, \<open>pstrcat\<close> returns the empty string. The later chunks
  are appended.
\<close>

lemma response_data_appended:
  "response_data st = Some d \<Longrightarrow>
   response_data (fst (snd (run_callbacks st (map WRITEFUNCTION chunks)))) =
     Some (d @ concat (map (\<lambda>b. pstrndup b (length b)) chunks))"
  by (induction chunks arbitrary: st d) (simp_all add: get_response_data_def)

lemma first_chunk_lost:
  assumes "response_data st = None"
  shows "response_data (fst (snd (run_callbacks st (map WRITEFUNCTION (chunk # chunks))))) =
    Some (concat (map (\<lambda>b. pstrndup b (length b)) chunks))"
proof -
  have "response_data (get_response_data st chunk) = Some []"
    using assms by (simp add: get_response_data_def)
  from response_data_appended [OF this] show ?thesis by simp
qed

text \<open>
  A response whose header lines end with CR LF runs through the callbacks without a
  fault, and \<open>received_headers\<close> then holds the lines received so far in the session,
  followed by the lines of this response.
\<close>

lemma run_callbacks_header_lines:
  assumes "\<forall>line \<in> set lines. NUL \<notin> set line" and "lines \<noteq> []"
  shows "fst (run_callbacks st
      (map (\<lambda>line. HEADERFUNCTION (line @ [CHR 0x0D, CHR 0x0A])) lines @
       map WRITEFUNCTION chunks)) = None \<and>
    received_headers (fst (snd (run_callbacks st
      (map (\<lambda>line. HEADERFUNCTION (line @ [CHR 0x0D, CHR 0x0A])) lines @
       map WRITEFUNCTION chunks)))) =
    Some ((case received_headers st of None \<Rightarrow> [] | Some hs \<Rightarrow> hs) @ lines)"
  using assms
proof (induction lines arbitrary: st)
  case Nil
  then show ?case by simp
next
  case (Cons line lines)
  let ?st = "st\<lparr>received_headers :=
    Some ((case received_headers st of None \<Rightarrow> [] | Some hs \<Rightarrow> hs) @ [line])\<rparr>"
  let ?rest = "map (\<lambda>line. HEADERFUNCTION (line @ [CHR 0x0D, CHR 0x0A])) lines @
    map WRITEFUNCTION chunks"
  from Cons.prems have line: "NUL \<notin> set line" by simp
  obtain f st' l where r: "run_callbacks ?st ?rest = (f, st', l)"
    by (cases "run_callbacks ?st ?rest")
  have step: "run_callbacks st
      (map (\<lambda>line. HEADERFUNCTION (line @ [CHR 0x0D, CHR 0x0A])) (line # lines) @
       map WRITEFUNCTION chunks) =
      (f, st', (PR_LOG_DEBUG, MOD_AUTH_WEB_VERSION @ '': received response header: '' @ line) # l)"
    using r by (simp add: get_response_headers_line [OF line])
  show ?case
  proof (cases "lines = []")
    case True
    with r run_callbacks_chunks [of ?st chunks] show ?thesis
      unfolding step by simp
  next
    case False
    with Cons.IH [of ?st] Cons.prems r show ?thesis
      unfolding step by simp
  qed
qed

section \<open>Claims about the gates\<close>

text \<open>
  C3. When the URL, the name of the user parameter, the name of the password parameter
  or the local user is missing, or both the failed string and the required headers are
  missing, \<open>handle_auth_web_auth\<close> declines for every user name and password and gives no
  request to libcurl; so does \<open>handle_auth_web_getpwnam\<close>.
\<close>

theorem unconfigured_declines:
  assumes "url st = None \<or> user_param_name st = None \<or> pass_param_name st = None \<or>
    local_user st = None \<or> (failed_string st = None \<and> required_headers st = None)"
  shows "ret (handle_auth_web_auth env st username password) = Inr PR_DECLINED \<and>
    requests (handle_auth_web_auth env st username password) = [] \<and>
    fst (handle_auth_web_getpwnam env st username) = Inr PR_DECLINED"
proof -
  from assms have "unconfigured st"
    by (auto simp: unconfigured_def)
  then show ?thesis
    by (simp add: handle_auth_web_auth_def handle_auth_web_getpwnam_def)
qed

theorem unconfigured_declines_witness:
  "failed_string (auth_web_getconf (example_conf\<lparr>AuthWebLoginFailedString := None\<rparr>)) = None \<and>
   required_headers (auth_web_getconf (example_conf\<lparr>AuthWebLoginFailedString := None\<rparr>)) = None \<and>
   ret (handle_auth_web_auth (example_env (http_response [] []))
     (auth_web_getconf (example_conf\<lparr>AuthWebLoginFailedString := None\<rparr>))
     ''alice'' ''secret'') = Inr PR_DECLINED \<and>
   requests (handle_auth_web_auth (example_env (http_response [] []))
     (auth_web_getconf (example_conf\<lparr>AuthWebLoginFailedString := None\<rparr>))
     ''alice'' ''secret'') = []"
proof -
  have h: "failed_string (auth_web_getconf (example_conf\<lparr>AuthWebLoginFailedString := None\<rparr>)) = None \<and>
    required_headers (auth_web_getconf (example_conf\<lparr>AuthWebLoginFailedString := None\<rparr>)) = None"
    by (simp add: auth_web_getconf_def example_conf_def)
  then show ?thesis
    using unconfigured_declines
      [of "auth_web_getconf (example_conf\<lparr>AuthWebLoginFailedString := None\<rparr>)"
          "example_env (http_response [] [])" "''alice''" "''secret''"]
    by blast
qed

text \<open>
  C4. When the module is configured, a user regex is set and the user name does not
  match it, \<open>handle_auth_web_auth\<close> declines and gives no request to libcurl.
\<close>

theorem regex_mismatch_declines:
  assumes "\<not> unconfigured st"
    and "user_creg st = Some creg"
    and "pr_regexp_exec creg username \<noteq> 0"
  shows "ret (handle_auth_web_auth env st username password) = Inr PR_DECLINED \<and>
    requests (handle_auth_web_auth env st username password) = []"
  using assms
  by (simp add: handle_auth_web_auth_def user_regex_fails_def)

theorem regex_mismatch_declines_witness:
  "\<not> unconfigured (auth_web_getconf (example_conf\<lparr>AuthWebUserRegex := Some example_regex\<rparr>)) \<and>
   pr_regexp_exec example_regex ''alice'' \<noteq> 0 \<and>
   ret (handle_auth_web_auth (example_env (http_response [] []))
     (auth_web_getconf (example_conf\<lparr>AuthWebUserRegex := Some example_regex\<rparr>))
     ''alice'' ''secret'') = Inr PR_DECLINED \<and>
   requests (handle_auth_web_auth (example_env (http_response [] []))
     (auth_web_getconf (example_conf\<lparr>AuthWebUserRegex := Some example_regex\<rparr>))
     ''alice'' ''secret'') = []"
proof -
  let ?st = "auth_web_getconf (example_conf\<lparr>AuthWebUserRegex := Some example_regex\<rparr>)"
  have a: "\<not> unconfigured ?st"
    by (simp add: unconfigured_def auth_web_getconf_def example_conf_def)
  have b: "user_creg ?st = Some example_regex"
    by (simp add: auth_web_getconf_def)
  have c: "pr_regexp_exec example_regex ''alice'' \<noteq> 0"
    by code_simp
  show ?thesis
    using a c regex_mismatch_declines [OF a b c, of "example_env (http_response [] [])" "''secret''"]
    by blast
qed

section \<open>Claims about the transfer and the response\<close>

text \<open>
  C5. When the module is configured, the user name passes the regex and
  \<open>curl_easy_perform\<close> returns an error code (the host is not resolved, the connection is
  refused or times out, the TLS handshake fails), \<open>handle_auth_web_auth\<close> declines,
  provided no callback that libcurl made before the error was stopped by a fault; in
  no case does it reject.
\<close>

theorem transfer_error_declines:
  assumes "\<not> unconfigured st" and "\<not> user_regex_fails st username"
    and "curl_easy_perform env (auth_request env st username password) = transfer"
    and "curl_code transfer \<noteq> CURLE_OK"
  shows "(fst (run_callbacks st (callbacks transfer)) = None \<longrightarrow>
      ret (handle_auth_web_auth env st username password) = Inr PR_DECLINED) \<and>
    (\<forall>code. ret (handle_auth_web_auth env st username password) \<noteq> Inr (PR_ERROR_INT code))"
proof -
  obtain f st' l where r: "run_callbacks st (callbacks transfer) = (f, st', l)"
    by (cases "run_callbacks st (callbacks transfer)")
  show ?thesis
  proof (cases f)
    case None
    with r assms show ?thesis
      by (simp add: handle_auth_web_auth_transfer)
  next
    case (Some e)
    with r assms show ?thesis
      by (simp add: handle_auth_web_auth_def Let_def)
  qed
qed

theorem transfer_error_declines_witness:
  "\<not> unconfigured (auth_web_getconf example_conf) \<and>
   \<not> user_regex_fails (auth_web_getconf example_conf) ''alice'' \<and>
   curl_code connection_refused \<noteq> CURLE_OK \<and>
   fst (run_callbacks (auth_web_getconf example_conf) (callbacks connection_refused)) = None \<and>
   ret (handle_auth_web_auth (example_env connection_refused) (auth_web_getconf example_conf)
     ''alice'' ''secret'') = Inr PR_DECLINED"
proof -
  let ?st = "auth_web_getconf example_conf"
  have a: "\<not> unconfigured ?st"
    by (simp add: unconfigured_def auth_web_getconf_def example_conf_def)
  have b: "\<not> user_regex_fails ?st ''alice''"
    by (simp add: user_regex_fails_def auth_web_getconf_def example_conf_def)
  have c: "curl_easy_perform (example_env connection_refused)
      (auth_request (example_env connection_refused) ?st ''alice'' ''secret'') = connection_refused"
    by (simp add: example_env_def)
  have d: "curl_code connection_refused \<noteq> CURLE_OK"
    by (simp add: connection_refused_def)
  have e: "fst (run_callbacks ?st (callbacks connection_refused)) = None"
    by (simp add: connection_refused_def)
  show ?thesis
    using a b d e transfer_error_declines [OF a b c d] by blast
qed

text \<open>
  C1. In the first transfer of a session \<open>response_data\<close> is still \<open>NULL\<close> when the first
  chunk of the body arrives; \<open>pstrcat(session.pool, response_data, str, NULL)\<close> then has
  an empty argument list and returns the empty string, so the first chunk is lost.
  A response whose body is the failed string, delivered in one chunk, is accepted.
\<close>

theorem failed_string_in_first_chunk_accepted:
  "ret (handle_auth_web_auth (example_env (http_response [] [''LOGIN FAILED'']))
     (auth_web_getconf example_conf) ''alice'' ''wrong'') = Inr PR_HANDLED \<and>
   response_data (state (handle_auth_web_auth (example_env (http_response [] [''LOGIN FAILED'']))
     (auth_web_getconf example_conf) ''alice'' ''wrong'')) = Some []"
  by code_simp

text \<open>
  The rule itself works on what has been accumulated: the same body in two chunks, with
  the failed string in the second, is rejected.
\<close>

lemma failed_string_in_later_chunk_rejected:
  "ret (handle_auth_web_auth (example_env (http_response [] [''<html>'', ''LOGIN FAILED'']))
     (auth_web_getconf example_conf) ''alice'' ''wrong'') = Inr (PR_ERROR_INT PR_AUTH_BADPWD)"
  by code_simp

text \<open>
  The loop over the required headers decides on \<open>received_headers\<close>, which holds the
  header lines of every transfer of the session so far: if a required header is not
  equal to any of them, the handler rejects; if every required header is equal to one
  of them and the failed string was not found, it accepts.
\<close>

lemma accumulated_headers_decide:
  assumes "\<not> unconfigured st" and "\<not> user_regex_fails st username"
    and "required_headers st = Some required" and "required \<noteq> []"
    and "curl_easy_perform env (auth_request env st username password) = transfer"
    and "curl_code transfer = CURLE_OK"
    and "run_callbacks st (callbacks transfer) = (None, st', l)"
    and "received_headers st' = Some received"
  shows "((\<exists>h \<in> set required. h \<notin> set received) \<longrightarrow>
      ret (handle_auth_web_auth env st username password) = Inr (PR_ERROR_INT PR_AUTH_BADPWD)) \<and>
    ((\<forall>h \<in> set required. h \<in> set received) \<and> \<not> failed_string_found st' \<longrightarrow>
      ret (handle_auth_web_auth env st username password) = Inr PR_HANDLED)"
proof -
  from run_callbacks_frame [OF assms(7)] assms(3)
  have rq: "required_headers st' = Some required" by auto
  have r: "ret (handle_auth_web_auth env st username password) = fst (check_response st')"
    using assms(1,2,5,6,7) by (simp add: handle_auth_web_auth_transfer)
  show ?thesis
  proof (cases "failed_string_found st'")
    case True
    then show ?thesis
      by (simp add: r check_response_failed_string)
  next
    case False
    then show ?thesis
      using rq assms(8) by (auto simp: r check_response_required_headers)
  qed
qed

text \<open>
  In the first attempt of a session the accumulated lines are those of the response:
  with only one of the two required headers it is rejected, with both it is accepted.
\<close>

lemma first_attempt_header_examples:
  "ret (handle_auth_web_auth (example_env (http_response [''X-Auth: ok''] [''welcome'']))
     (auth_web_getconf example_header_conf) ''alice'' ''secret'') =
     Inr (PR_ERROR_INT PR_AUTH_BADPWD) \<and>
   ret (handle_auth_web_auth
     (example_env (http_response [''X-Auth: ok'', ''X-Role: admin''] [''welcome'']))
     (auth_web_getconf example_header_conf) ''alice'' ''secret'') = Inr PR_HANDLED"
proof -
  let ?st = "auth_web_getconf example_header_conf"
  let ?rq = "[''X-Auth: ok'', ''X-Role: admin'']"
  have a: "\<not> unconfigured ?st"
    by (simp add: unconfigured_def auth_web_getconf_def example_header_conf_def example_conf_def)
  have b: "\<not> user_regex_fails ?st ''alice''"
    by (simp add: user_regex_fails_def auth_web_getconf_def example_header_conf_def
        example_conf_def)
  have c: "required_headers ?st = Some ?rq"
    by (simp add: auth_web_getconf_def example_header_conf_def)
  have d: "?rq \<noteq> []" by simp
  have e: "curl_easy_perform (example_env t) (auth_request (example_env t) ?st ''alice'' ''secret'') = t"
    for t by (simp add: example_env_def)
  have f: "curl_code (http_response hs cs) = CURLE_OK" for hs cs
    by (simp add: http_response_def)
  let ?t1 = "http_response [''X-Auth: ok''] [''welcome'']"
  let ?t2 = "http_response [''X-Auth: ok'', ''X-Role: admin''] [''welcome'']"
  obtain f1 st1 l1 where r1: "run_callbacks ?st (callbacks ?t1) = (f1, st1, l1)"
    by (cases "run_callbacks ?st (callbacks ?t1)")
  obtain f2 st2 l2 where r2: "run_callbacks ?st (callbacks ?t2) = (f2, st2, l2)"
    by (cases "run_callbacks ?st (callbacks ?t2)")
  have "fst (run_callbacks ?st (callbacks ?t1)) = None" by code_simp
  with r1 have g1: "run_callbacks ?st (callbacks ?t1) = (None, st1, l1)" by simp
  have "fst (run_callbacks ?st (callbacks ?t2)) = None" by code_simp
  with r2 have g2: "run_callbacks ?st (callbacks ?t2) = (None, st2, l2)" by simp
  have "received_headers (fst (snd (run_callbacks ?st (callbacks ?t1)))) =
      Some [''HTTP/1.1 200 OK'', ''X-Auth: ok'', []]"
    by code_simp
  with r1 have h1: "received_headers st1 = Some [''HTTP/1.1 200 OK'', ''X-Auth: ok'', []]"
    by simp
  have "received_headers (fst (snd (run_callbacks ?st (callbacks ?t2)))) =
      Some [''HTTP/1.1 200 OK'', ''X-Auth: ok'', ''X-Role: admin'', []]"
    by code_simp
  with r2 have h2: "received_headers st2 =
      Some [''HTTP/1.1 200 OK'', ''X-Auth: ok'', ''X-Role: admin'', []]"
    by simp
  have "\<not> failed_string_found (fst (snd (run_callbacks ?st (callbacks ?t2))))"
    by code_simp
  with r2 have i2: "\<not> failed_string_found st2" by simp
  from accumulated_headers_decide [OF a b c d e f g1 h1]
  have "ret (handle_auth_web_auth (example_env ?t1) ?st ''alice'' ''secret'') =
      Inr (PR_ERROR_INT PR_AUTH_BADPWD)"
    by simp
  moreover from accumulated_headers_decide [OF a b c d e f g2 h2] i2
  have "ret (handle_auth_web_auth (example_env ?t2) ?st ''alice'' ''secret'') = Inr PR_HANDLED"
    by simp
  ultimately show ?thesis by simp
qed

text \<open>
  A transfer that succeeds without a single header line, in a session that has received
  none, leaves \<open>received_headers\<close> \<open>NULL\<close>, and the handler reads through it.
\<close>

lemma no_header_line_faults:
  "ret (handle_auth_web_auth
     (example_env \<lparr>callbacks = [], curl_code = CURLE_OK, curl_error = []\<rparr>)
     (auth_web_getconf example_header_conf) ''alice'' ''secret'') = Inl NullDereference"
  by code_simp

text \<open>
  C2. A response that lacks a required header is to be rejected. \<open>received_headers\<close> is
  never emptied, so in a later attempt of the same session the headers of the earlier
  responses still count. Here the first response has only \<open>X-Auth: ok\<close> and is
  rejected; the second has only \<open>X-Role: admin\<close>, so \<open>X-Auth: ok\<close> is not among its
  header lines, and it is accepted.
\<close>

theorem stale_headers_accept_later_attempt:
  "ret (handle_auth_web_auth (example_env (http_response [''X-Auth: ok''] []))
     (auth_web_getconf example_header_conf) ''alice'' ''guess1'') =
     Inr (PR_ERROR_INT PR_AUTH_BADPWD) \<and>
   ret (handle_auth_web_auth (example_env (http_response [''X-Role: admin''] []))
     (state (handle_auth_web_auth (example_env (http_response [''X-Auth: ok''] []))
        (auth_web_getconf example_header_conf) ''alice'' ''guess1''))
     ''alice'' ''guess2'') = Inr PR_HANDLED"
  by code_simp

section \<open>Claims about the account record and the log\<close>

text \<open>
  When the local user has an account, the \<open>getpwnam\<close> handler returns a copy of its
  record in which only \<open>pw_name\<close> is replaced, by the user name of the attempt.
\<close>

lemma getpwnam_account_present:
  assumes "\<not> unconfigured st" and "\<not> user_regex_fails st username"
    and "local_user st = Some name" and "getpwnam env name = Some pw"
  shows "fst (handle_auth_web_getpwnam env st username) =
    Inr (mod_create_data (pw\<lparr>pw_name := username\<rparr>))"
  using assms by (simp add: handle_auth_web_getpwnam_def)

text \<open>
  C6. When the local user has no account, \<open>getpwnam\<close> returns \<open>NULL\<close> and the handler
  copies from it: the call does not decline, it is stopped by the dereference. Here the
  configured local user is \<open>webuser\<close> and the only account is \<open>ftp\<close>.
\<close>

theorem getpwnam_account_absent_faults:
  "getpwnam (example_env (http_response [] [])) ''webuser'' = None \<and>
   fst (handle_auth_web_getpwnam (example_env (http_response [] []))
     (auth_web_getconf (example_conf\<lparr>AuthWebLocalUser := Some ''webuser''\<rparr>)) ''alice'') =
   Inl NullDereference"
  by code_simp

text \<open>
  C7. The password is written to the log: the first line that an attempt logs after the
  gates holds the body of the request, with the password in it.
\<close>

theorem password_logged_counterexample:
  "hd (logged (handle_auth_web_auth (example_env (http_response [] []))
     (auth_web_getconf example_conf) ''alice'' ''secret'')) =
   (PR_LOG_DEBUG,
    ''mod_auth_web/1.1.2: calling URL http://auth.example/check with POST data user=alice&pass=secret'')"
  by code_simp

text \<open>
  C7, as amended. An attempt that is stopped at a gate (the module is not configured,
  or the user name does not match the regex) logs nothing that depends on the password.
  An attempt that passes the gates first logs, at debug level, the URL and the body of
  the request, which ends with the URL-encoded password.
\<close>

theorem password_in_debug_log:
  "(unconfigured st \<or> user_regex_fails st username \<longrightarrow>
      logged (handle_auth_web_auth env st username password) =
      logged (handle_auth_web_auth env st username password')) \<and>
   (\<not> unconfigured st \<and> \<not> user_regex_fails st username \<and>
    url st = Some u \<and> user_param_name st = Some user_param \<and>
    pass_param_name st = Some pass_param \<and> NUL \<notin> set user_param \<and> NUL \<notin> set pass_param \<longrightarrow>
      hd (logged (handle_auth_web_auth env st username password)) =
      (PR_LOG_DEBUG,
       MOD_AUTH_WEB_VERSION @ '': calling URL '' @ u @ '' with POST data '' @
       user_param @ ''='' @ urlencode (char_signed env) username @ ''&'' @
       pass_param @ ''='' @ urlencode (char_signed env) password))"
proof (intro conjI impI)
  assume "unconfigured st \<or> user_regex_fails st username"
  then show "logged (handle_auth_web_auth env st username password) =
      logged (handle_auth_web_auth env st username password')"
    by (auto simp: handle_auth_web_auth_def)
next
  assume a: "\<not> unconfigured st \<and> \<not> user_regex_fails st username \<and>
    url st = Some u \<and> user_param_name st = Some user_param \<and>
    pass_param_name st = Some pass_param \<and> NUL \<notin> set user_param \<and> NUL \<notin> set pass_param"
  then have "post_data env st username password =
      user_param @ ''='' @ urlencode (char_signed env) username @ ''&'' @
      pass_param @ ''='' @ urlencode (char_signed env) password"
    by (intro post_data_eq) auto
  with a show "hd (logged (handle_auth_web_auth env st username password)) =
      (PR_LOG_DEBUG,
       MOD_AUTH_WEB_VERSION @ '': calling URL '' @ u @ '' with POST data '' @
       user_param @ ''='' @ urlencode (char_signed env) username @ ''&'' @
       pass_param @ ''='' @ urlencode (char_signed env) password)"
    by (simp add: handle_auth_web_auth_def Let_def split: prod.splits option.splits)
qed

theorem password_in_debug_log_witness:
  "logged (handle_auth_web_auth (example_env (http_response [] []))
     (auth_web_getconf (example_conf\<lparr>AuthWebUserRegex := Some example_regex\<rparr>))
     ''alice'' ''secret'') =
   logged (handle_auth_web_auth (example_env (http_response [] []))
     (auth_web_getconf (example_conf\<lparr>AuthWebUserRegex := Some example_regex\<rparr>))
     ''alice'' ''other'') \<and>
   hd (logged (handle_auth_web_auth (example_env (http_response [] []))
     (auth_web_getconf example_conf) ''alice'' ''my secret'')) =
   (PR_LOG_DEBUG,
    MOD_AUTH_WEB_VERSION @ '': calling URL http://auth.example/check with POST data '' @
    ''user='' @ urlencode True ''alice'' @ ''&pass='' @ urlencode True ''my secret'')"
proof -
  let ?env = "example_env (http_response [] [])"
  let ?st1 = "auth_web_getconf (example_conf\<lparr>AuthWebUserRegex := Some example_regex\<rparr>)"
  let ?st2 = "auth_web_getconf example_conf"
  have "pr_regexp_exec example_regex ''alice'' \<noteq> 0"
    by code_simp
  then have "user_regex_fails ?st1 ''alice''"
    by (simp add: user_regex_fails_def auth_web_getconf_def)
  with password_in_debug_log [where st = ?st1 and username = "''alice''" and env = ?env
      and password = "''secret''" and password' = "''other''"]
  have one: "logged (handle_auth_web_auth ?env ?st1 ''alice'' ''secret'') =
      logged (handle_auth_web_auth ?env ?st1 ''alice'' ''other'')"
    by blast
  have "\<not> unconfigured ?st2 \<and> \<not> user_regex_fails ?st2 ''alice'' \<and>
    url ?st2 = Some ''http://auth.example/check'' \<and> user_param_name ?st2 = Some ''user'' \<and>
    pass_param_name ?st2 = Some ''pass'' \<and> NUL \<notin> set ''user'' \<and> NUL \<notin> set ''pass''"
    by (simp add: unconfigured_def user_regex_fails_def auth_web_getconf_def example_conf_def)
  with password_in_debug_log [where st = ?st2 and username = "''alice''" and env = ?env
      and password = "''my secret''" and u = "''http://auth.example/check''"
      and user_param = "''user''" and pass_param = "''pass''"]
  have two: "hd (logged (handle_auth_web_auth ?env ?st2 ''alice'' ''my secret'')) =
      (PR_LOG_DEBUG,
       MOD_AUTH_WEB_VERSION @ '': calling URL '' @ ''http://auth.example/check'' @
       '' with POST data '' @ ''user'' @ ''='' @ urlencode (char_signed ?env) ''alice'' @ ''&'' @
       ''pass'' @ ''='' @ urlencode (char_signed ?env) ''my secret'')"
    by blast
  have "char_signed ?env = True" by (simp add: example_env_def)
  with two have "hd (logged (handle_auth_web_auth ?env ?st2 ''alice'' ''my secret'')) =
      (PR_LOG_DEBUG,
       MOD_AUTH_WEB_VERSION @ '': calling URL http://auth.example/check with POST data '' @
       ''user='' @ urlencode True ''alice'' @ ''&pass='' @ urlencode True ''my secret'')"
    by simp
  with one show ?thesis by blast
qed

end
